theory Spec2Isabelle
  imports Main "HOL-Library.Sublist"
begin

section \<open>Python strings\<close>

text \<open>
  A Python \<open>str\<close> is a sequence of Unicode code points; it is modelled as a list of
  natural numbers, one per code point. \<open>lit\<close> turns a literal of the source into such a
  list.
\<close>

type_synonym pystr = "nat list"

definition lit :: "string \<Rightarrow> pystr" where
  "lit s = map of_char s"

text \<open>
  \<open>str.isalnum\<close> on one code point. Below 128 the alphanumeric code points are the
  ASCII digits and letters. Above, the answer comes from the Unicode character database
  of the Python runtime, which is not part of the repository: it is the parameter
  \<open>uni\<close>.
\<close>

definition ascii_alnum :: "nat \<Rightarrow> bool" where
  "ascii_alnum c =
     ((48 \<le> c \<and> c \<le> 57) \<or> (65 \<le> c \<and> c \<le> 90) \<or> (97 \<le> c \<and> c \<le> 122))"

definition isalnum :: "(nat \<Rightarrow> bool) \<Rightarrow> nat \<Rightarrow> bool" where
  "isalnum uni c = (if c < 128 then ascii_alnum c else uni c)"

text \<open>
  The class \<open>\w\<close> of the \<open>re\<close> module on a \<open>str\<close> pattern: the alphanumeric code
  points and the underscore. \<open>\d\<close> is a part of \<open>\w\<close>, so \<open>[^\w\d]\<close> is the
  complement of \<open>\w\<close>.
\<close>

definition word_char :: "(nat \<Rightarrow> bool) \<Rightarrow> nat \<Rightarrow> bool" where
  "word_char uni c = (isalnum uni c \<or> c = of_char (CHR ''_''))"

text \<open>A table with no alphanumeric code point above 127, for the ASCII examples.\<close>

definition ascii_only :: "nat \<Rightarrow> bool" where
  "ascii_only c = False"

section \<open>\<open>format_filename\<close>\<close>

text \<open>
  \<open>re.sub(r"https?://", "", url)\<close>: the string is scanned from the left; where
  \<open>http://\<close> or \<open>https://\<close> starts, the match is dropped and the scan goes on behind
  it; any other code point is kept.
\<close>

function re_sub_scheme :: "pystr \<Rightarrow> pystr" where
  "re_sub_scheme [] = []"
| "re_sub_scheme (c # cs) =
     (if take 8 (c # cs) = lit ''https://'' then re_sub_scheme (drop 8 (c # cs))
      else if take 7 (c # cs) = lit ''http://'' then re_sub_scheme (drop 7 (c # cs))
      else c # re_sub_scheme cs)"
  by pat_completeness auto
termination
  by (relation "measure length") auto

text \<open>\<open>.strip("/")\<close>: the slashes at both ends go.\<close>

definition strip_slash :: "pystr \<Rightarrow> pystr" where
  "strip_slash s =
     rev (dropWhile (\<lambda>c. c = of_char (CHR ''/''))
       (rev (dropWhile (\<lambda>c. c = of_char (CHR ''/'')) s)))"

text \<open>
  \<^verbatim>\<open>
  def format_filename(self, url):
      domain_and_path = re.sub(r"https?://", "", url).strip("/")
      domain_and_path = re.sub(r"[^\w\d]", "", domain_and_path)
      return domain_and_path
  \<close>
\<close>

definition format_filename :: "(nat \<Rightarrow> bool) \<Rightarrow> pystr \<Rightarrow> pystr" where
  "format_filename uni url = filter (word_char uni) (strip_slash (re_sub_scheme url))"

section \<open>The browser and the progress callback\<close>

text \<open>
  An exception on its way up. \<open>except Exception\<close> catches the instances of
  \<open>Exception\<close> and lets every other exception pass (\<open>SystemExit\<close>,
  \<open>KeyboardInterrupt\<close>, \<open>GeneratorExit\<close>, any class derived from \<open>BaseException\<close>
  directly). Of the exception itself the program reads \<open>str(e)\<close> only, which both
  constructors carry.
\<close>

datatype exc = is_Exception: Exception pystr | Non_Exception pystr

text \<open>
  A call out of the program either returns or raises; \<open>Raises e\<close> carries what is
  raised.
  \<^item> A call into Selenium reports a fault as a \<open>WebDriverException\<close> (time out, no
    such element, session lost), an instance of \<open>Exception\<close>: what it raises is
    given by \<open>str(e)\<close>.
  \<^item> The progress callback is code of the caller and may raise any exception, in
    \<open>Exception\<close> or not.
\<close>

datatype ('a, 'e) outcome = is_Returns: Returns 'a | Raises 'e

text \<open>
  The browser, as the run sees it: what each Selenium call answers. An element is named
  by the XPath that located it. Within one run no call is made twice with the same
  arguments, so a function of the arguments describes any browser.
  \<^item> \<open>Chrome\<close>: \<open>webdriver.Chrome(options=chrome_options)\<close>, giving the session;
  \<^item> \<open>get url\<close>: \<open>driver.get(url)\<close>;
  \<^item> \<open>until_presence t x\<close>:
    \<open>WebDriverWait(driver, t).until(EC.presence_of_element_located((By.XPATH, x)))\<close>;
  \<^item> \<open>click x\<close>: \<open>element.click()\<close>;
  \<^item> \<open>find_element x\<close>: \<open>driver.find_element(By.XPATH, x)\<close>;
  \<^item> \<open>switch_to_frame x\<close>: \<open>driver.switch_to.frame(element)\<close>;
  \<^item> \<open>save_screenshot p\<close>: \<open>driver.save_screenshot(p)\<close>, whose value tells whether
    the file was written;
  \<^item> \<open>execute_script js x\<close>: \<open>driver.execute_script(js, element)\<close>;
  \<^item> \<open>send_keys x text\<close>: \<open>element.send_keys(text)\<close>;
  \<^item> \<open>quit\<close>: \<open>driver.quit()\<close>.
\<close>

record browser =
  Chrome :: "(nat, pystr) outcome"
  get :: "pystr \<Rightarrow> (unit, pystr) outcome"
  until_presence :: "nat \<Rightarrow> pystr \<Rightarrow> (unit, pystr) outcome"
  click :: "pystr \<Rightarrow> (unit, pystr) outcome"
  find_element :: "pystr \<Rightarrow> (unit, pystr) outcome"
  switch_to_frame :: "pystr \<Rightarrow> (unit, pystr) outcome"
  save_screenshot :: "pystr \<Rightarrow> (bool, pystr) outcome"
  execute_script :: "pystr \<Rightarrow> pystr \<Rightarrow> (unit, pystr) outcome"
  send_keys :: "pystr \<Rightarrow> pystr \<Rightarrow> (unit, pystr) outcome"
  quit :: "(unit, pystr) outcome"

type_synonym callback = "nat \<Rightarrow> pystr \<Rightarrow> (unit, exc) outcome"

text \<open>The calls a run makes, in the order it makes them.\<close>

datatype event =
  NewChrome
| Progress nat pystr
| Get pystr
| UntilPresence nat pystr
| Click pystr
| FindElement pystr
| SwitchToFrame pystr
| SaveScreenshot pystr
| ExecuteScript pystr pystr
| SendKeys pystr pystr
| Quit nat

text \<open>
  The state a run works on: \<open>self.driver\<close> of the \<open>AccessibilityTester\<close> and the calls
  made so far. \<open>__init__\<close> sets \<open>self.driver = None\<close>.
\<close>

record state =
  driver :: "nat option"
  events :: "event list"

definition new_tester :: state where
  "new_tester = \<lparr>driver = None, events = []\<rparr>"

section \<open>Statements\<close>

text \<open>
  A statement ends normally, with a \<open>return\<close>, or with an exception on its way up.
  The value returned is the triple \<open>(success, message, screenshot_path)\<close>.
\<close>

type_synonym test_result = "bool \<times> pystr \<times> pystr option"

datatype completion = Normal | Return test_result | Raise exc

type_synonym stmt = "state \<Rightarrow> completion \<times> state"

definition pass :: stmt where
  "pass s = (Normal, s)"

definition return_stmt :: "test_result \<Rightarrow> stmt" where
  "return_stmt r s = (Return r, s)"

text \<open>A call into Selenium, and a call of the progress callback.\<close>

definition call :: "event \<Rightarrow> ('a, pystr) outcome \<Rightarrow> stmt" where
  "call ev out s =
     ((case out of Returns v \<Rightarrow> Normal | Raises e \<Rightarrow> Raise (Exception e)),
      s\<lparr>events := events s @ [ev]\<rparr>)"

definition call_back :: "event \<Rightarrow> (unit, exc) outcome \<Rightarrow> stmt" where
  "call_back ev out s =
     ((case out of Returns v \<Rightarrow> Normal | Raises x \<Rightarrow> Raise x),
      s\<lparr>events := events s @ [ev]\<rparr>)"

definition seq :: "stmt \<Rightarrow> stmt \<Rightarrow> stmt" where
  "seq a b s = (case a s of (Normal, s') \<Rightarrow> b s' | (c, s') \<Rightarrow> (c, s'))"

text \<open>
  \<open>try: a except Exception as e: h\<close>: the handler runs for an instance of
  \<open>Exception\<close>, with \<open>str(e)\<close>; any other exception goes on up.
\<close>

definition try_except :: "stmt \<Rightarrow> (pystr \<Rightarrow> stmt) \<Rightarrow> stmt" where
  "try_except a h s =
     (case a s of
        (Raise (Exception e), s') \<Rightarrow> h e s'
      | (c, s') \<Rightarrow> (c, s'))"

text \<open>
  \<open>try: a finally: f\<close>: \<open>f\<close> runs however \<open>a\<close> ended; when \<open>f\<close> ends normally the
  statement ends as \<open>a\<close> did, and when \<open>f\<close> raises, its exception takes the place of
  the way \<open>a\<close> ended, a pending \<open>return\<close> included.
\<close>

definition try_finally :: "stmt \<Rightarrow> stmt \<Rightarrow> stmt" where
  "try_finally a f s =
     (case a s of (c, s') \<Rightarrow>
        (case f s' of (Normal, s'') \<Rightarrow> (c, s'') | (c', s'') \<Rightarrow> (c', s'')))"

text \<open>
  \<^verbatim>\<open>
  if progress_callback:
      progress_callback(percent, message)
  \<close>
\<close>

definition report :: "callback option \<Rightarrow> nat \<Rightarrow> pystr \<Rightarrow> stmt" where
  "report progress_callback percent message =
     (case progress_callback of
        None \<Rightarrow> pass
      | Some f \<Rightarrow> call_back (Progress percent message) (f percent message))"

section \<open>\<open>setup_driver\<close>\<close>

text \<open>
  \<^verbatim>\<open>
  try:
      self.driver = webdriver.Chrome(options=chrome_options)
      return True
  except Exception as e:
      logger.error(f"Failed to setup driver: {e}")
      return False
  \<close>
  Building the options object and logging touch neither the browser nor the result and
  are left out, here and below, as are the calls of \<open>time.sleep\<close>.
\<close>

definition setup_driver :: "browser \<Rightarrow> state \<Rightarrow> bool \<times> state" where
  "setup_driver br s =
     (case Chrome br of
        Returns d \<Rightarrow> (True, s\<lparr>driver := Some d, events := events s @ [NewChrome]\<rparr>)
      | Raises e \<Rightarrow> (False, s\<lparr>events := events s @ [NewChrome]\<rparr>))"

section \<open>\<open>capture_accessibility_test\<close>\<close>

text \<open>The string constants of the function.\<close>

definition base_url :: pystr where
  "base_url = lit ''https://accessibe.com/accessscan?website=''"

definition consent_xpath :: pystr where
  "consent_xpath =
     lit ''//button[contains(text(), 'Reject All')] | //button[contains(text(), 'Accept All')]''"

definition iframe_xpath :: pystr where
  "iframe_xpath = lit ''//iframe[contains(@src, '#audit/')]''"

definition get_report_button_xpath :: pystr where
  "get_report_button_xpath = lit ''//span[@data-click-trigger='popup-get-report']''"

definition name_field_xpath :: pystr where
  "name_field_xpath = lit ''//input[@id='field-name']''"

definition email_field_xpath :: pystr where
  "email_field_xpath = lit ''//input[@id='field-email']''"

definition submit_button_xpath :: pystr where
  "submit_button_xpath = lit ''//button[@id='get-report-button']''"

definition click_script :: pystr where
  "click_script = lit ''arguments[0].click();''"

definition screenshot_path :: "(nat \<Rightarrow> bool) \<Rightarrow> pystr \<Rightarrow> pystr" where
  "screenshot_path uni target_url =
     lit ''accessibility_results_'' @ format_filename uni target_url @ lit ''.png''"

text \<open>
  \<^verbatim>\<open>
  # Handle cookie consent popup if present
  try:
      cookie_banner = WebDriverWait(self.driver, 10).until(
          EC.presence_of_element_located((By.XPATH, "//button[...] | //button[...]")))
      cookie_banner.click()
      logger.info("Cookie consent accepted.")
  except Exception:
      logger.info("No cookie consent message found.")
  \<close>
\<close>

definition handle_cookie_consent :: "browser \<Rightarrow> stmt" where
  "handle_cookie_consent br =
     try_except
       (seq (call (UntilPresence 10 consent_xpath) (until_presence br 10 consent_xpath))
            (call (Click consent_xpath) (click br consent_xpath)))
       (\<lambda>e. pass)"

text \<open>
  The body of the outer \<open>try\<close> (lines 120 to 232 of \<open>app.py\<close>), statement by
  statement. Each inner \<open>try\<close> of the source is a \<open>try_except\<close> here, with the
  \<open>return\<close> of its handler.
\<close>

definition capture_body ::
  "(nat \<Rightarrow> bool) \<Rightarrow> browser \<Rightarrow> pystr \<Rightarrow> pystr \<Rightarrow> pystr \<Rightarrow> callback option \<Rightarrow> stmt" where
  "capture_body uni br target_url username email progress_callback =
     seq (report progress_callback 10 (lit ''Setting up browser...''))
    (seq (call (Get (base_url @ target_url)) (get br (base_url @ target_url)))
    (seq (report progress_callback 20 (lit ''Loading accessibility scanner...''))
    (seq (handle_cookie_consent br)
    (seq (report progress_callback 30 (lit ''Waiting for scan results...''))
    (seq (call (UntilPresence 30 iframe_xpath) (until_presence br 30 iframe_xpath))
    (seq (report progress_callback 50 (lit ''Scanning website for accessibility issues...''))
    (seq (call (FindElement iframe_xpath) (find_element br iframe_xpath))
    (seq (call (SwitchToFrame iframe_xpath) (switch_to_frame br iframe_xpath))
    (seq (report progress_callback 70 (lit ''Generating report...''))
    (seq (call (SaveScreenshot (screenshot_path uni target_url))
           (save_screenshot br (screenshot_path uni target_url)))
    (seq (try_except
           (call (UntilPresence 10 get_report_button_xpath)
              (until_presence br 10 get_report_button_xpath))
           (\<lambda>e. return_stmt
              (False, lit '''Get Free Report' button not found'',
               Some (screenshot_path uni target_url))))
    (seq (try_except
           (seq (call (FindElement get_report_button_xpath)
                   (find_element br get_report_button_xpath))
                (call (ExecuteScript click_script get_report_button_xpath)
                   (execute_script br click_script get_report_button_xpath)))
           (\<lambda>e. return_stmt
              (False, lit ''Error clicking 'Get Free Report' button: '' @ e,
               Some (screenshot_path uni target_url))))
    (seq (report progress_callback 80 (lit ''Filling form with provided details...''))
    (seq (try_except
           (call (UntilPresence 30 name_field_xpath) (until_presence br 30 name_field_xpath))
           (\<lambda>e. return_stmt
              (False, lit ''Popup form did not appear: '' @ e,
               Some (screenshot_path uni target_url))))
    (seq (try_except
           (seq (call (FindElement name_field_xpath) (find_element br name_field_xpath))
           (seq (call (SendKeys name_field_xpath username)
                   (send_keys br name_field_xpath username))
           (seq (call (FindElement email_field_xpath) (find_element br email_field_xpath))
                (call (SendKeys email_field_xpath email)
                   (send_keys br email_field_xpath email)))))
           (\<lambda>e. return_stmt
              (False, lit ''Error filling form fields: '' @ e,
               Some (screenshot_path uni target_url))))
    (seq (report progress_callback 90 (lit ''Submitting form...''))
         (try_except
           (seq (call (FindElement submit_button_xpath) (find_element br submit_button_xpath))
           (seq (call (ExecuteScript click_script submit_button_xpath)
                   (execute_script br click_script submit_button_xpath))
           (seq (report progress_callback 100 (lit ''Test completed successfully!''))
                (return_stmt
                   (True, lit ''Report for URL: '' @ target_url @ lit '' sent to email: '' @ email,
                    Some (screenshot_path uni target_url))))))
           (\<lambda>e. return_stmt
              (False, lit ''Error submitting form: '' @ e,
               Some (screenshot_path uni target_url))))))))))))))))))))"

text \<open>
  \<^verbatim>\<open>
  if not self.setup_driver():
      return False, "Failed to setup browser driver", None
  try:
      ...
  except Exception as e:
      logger.error(f"An error occurred for {target_url}: {e}")
      return False, f"An error occurred: {e}", None
  finally:
      if self.driver:
          self.driver.quit()
  \<close>
  The value is how the call ends: \<open>Return r\<close> when it returns the triple \<open>r\<close>,
  \<open>Raise x\<close> when the exception \<open>x\<close> leaves it, \<open>Normal\<close> when it runs off its end
  (and returns \<open>None\<close>). \<open>driver.quit()\<close> is called in the \<open>finally\<close> block, in
  no handler.
\<close>

definition capture_accessibility_test ::
  "(nat \<Rightarrow> bool) \<Rightarrow> browser \<Rightarrow> pystr \<Rightarrow> pystr \<Rightarrow> pystr \<Rightarrow> callback option \<Rightarrow> stmt" where
  "capture_accessibility_test uni br target_url username email progress_callback s =
     (let (ok, s1) = setup_driver br s in
      if \<not> ok then (Return (False, lit ''Failed to setup browser driver'', None), s1)
      else
        try_finally
          (try_except
             (capture_body uni br target_url username email progress_callback)
             (\<lambda>e. return_stmt (False, lit ''An error occurred: '' @ e, None)))
          (\<lambda>s2. case driver s2 of
                   Some d \<Rightarrow> call (Quit d) (quit br) s2
                 | None \<Rightarrow> pass s2)
          s1)"

section \<open>What a run shows\<close>

text \<open>The close of a session, and the percent values handed to the progress callback.\<close>

definition is_quit :: "event \<Rightarrow> bool" where
  "is_quit ev = (case ev of Quit d \<Rightarrow> True | _ \<Rightarrow> False)"

definition is_progress :: "event \<Rightarrow> bool" where
  "is_progress ev = (case ev of Progress p m \<Rightarrow> True | _ \<Rightarrow> False)"




text \<open>A callback that never raises; no callback at all never raises either.\<close>

definition callback_returns :: "callback option \<Rightarrow> bool" where
  "callback_returns cb = (case cb of None \<Rightarrow> True | Some f \<Rightarrow> (\<forall>p m. is_Returns (f p m)))"

text \<open>
  Every stage of a run on \<open>target_url\<close> succeeds: each call the run makes into the
  browser returns, from the start of the session to its close. The consent stage has no
  entry, since it succeeds whatever the browser answers.
\<close>

definition stages_succeed :: "(nat \<Rightarrow> bool) \<Rightarrow> browser \<Rightarrow> pystr \<Rightarrow> pystr \<Rightarrow> pystr \<Rightarrow> bool" where
  "stages_succeed uni br target_url username email =
     (is_Returns (Chrome br) \<and>
      is_Returns (get br (base_url @ target_url)) \<and>
      is_Returns (until_presence br 30 iframe_xpath) \<and>
      is_Returns (find_element br iframe_xpath) \<and>
      is_Returns (switch_to_frame br iframe_xpath) \<and>
      is_Returns (save_screenshot br (screenshot_path uni target_url)) \<and>
      is_Returns (until_presence br 10 get_report_button_xpath) \<and>
      is_Returns (find_element br get_report_button_xpath) \<and>
      is_Returns (execute_script br click_script get_report_button_xpath) \<and>
      is_Returns (until_presence br 30 name_field_xpath) \<and>
      is_Returns (find_element br name_field_xpath) \<and>
      is_Returns (send_keys br name_field_xpath username) \<and>
      is_Returns (find_element br email_field_xpath) \<and>
      is_Returns (send_keys br email_field_xpath email) \<and>
      is_Returns (find_element br submit_button_xpath) \<and>
      is_Returns (execute_script br click_script submit_button_xpath) \<and>
      is_Returns (quit br))"

text \<open>
  Two browsers that answer alike but for the consent button: the wait for it and the
  click on it.
\<close>

definition same_except_consent :: "browser \<Rightarrow> browser \<Rightarrow> bool" where
  "same_except_consent br br' =
     (Chrome br' = Chrome br \<and>
      get br' = get br \<and>
      (\<forall>t x. x \<noteq> consent_xpath \<longrightarrow> until_presence br' t x = until_presence br t x) \<and>
      (\<forall>x. x \<noteq> consent_xpath \<longrightarrow> click br' x = click br x) \<and>
      find_element br' = find_element br \<and>
      switch_to_frame br' = switch_to_frame br \<and>
      save_screenshot br' = save_screenshot br \<and>
      execute_script br' = execute_script br \<and>
      send_keys br' = send_keys br \<and>
      quit br' = quit br)"

section \<open>Example browsers and callbacks\<close>

text \<open>A browser in which every call returns and the screenshot is written.\<close>

definition cooperative :: browser where
  "cooperative =
     \<lparr>Chrome = Returns 1, get = (\<lambda>url. Returns ()), until_presence = (\<lambda>t x. Returns ()),
      click = (\<lambda>x. Returns ()), find_element = (\<lambda>x. Returns ()),
      switch_to_frame = (\<lambda>x. Returns ()), save_screenshot = (\<lambda>p. Returns True),
      execute_script = (\<lambda>js x. Returns ()), send_keys = (\<lambda>x text. Returns ()),
      quit = Returns ()\<rparr>"

text \<open>The same browser without a consent dialog: the wait for the button times out.\<close>

definition no_dialog :: browser where
  "no_dialog =
     cooperative\<lparr>until_presence :=
       (\<lambda>t x. if x = consent_xpath then Raises (lit ''Message: '') else Returns ())\<rparr>"

text \<open>
  A callback that returns; one that raises an \<open>Exception\<close> at the checkpoint \<open>n\<close>;
  and one that at the checkpoint \<open>n\<close> raises an exception outside of \<open>Exception\<close>,
  as \<open>sys.exit()\<close> does.
\<close>

definition quiet :: callback where
  "quiet percent message = Returns ()"

definition failing_at :: "nat \<Rightarrow> callback" where
  "failing_at n percent message =
     (if percent = n then Raises (Exception (lit ''callback failed'')) else Returns ())"


section \<open>Properties of statements\<close>

text \<open>
  \<open>preserves I m\<close>: however \<open>m\<close> ends, it keeps \<open>I\<close>. \<open>ends m\<close>: \<open>m\<close> never
  ends normally, so nothing after it runs. \<open>hoare P m Q\<close>: from a state with \<open>P\<close>,
  \<open>m\<close> ends in a way and a state with \<open>Q\<close>.
\<close>

definition preserves :: "(state \<Rightarrow> bool) \<Rightarrow> stmt \<Rightarrow> bool" where
  "preserves I m = (\<forall>s c s'. I s \<longrightarrow> m s = (c, s') \<longrightarrow> I s')"


definition hoare :: "(state \<Rightarrow> bool) \<Rightarrow> stmt \<Rightarrow> (completion \<Rightarrow> state \<Rightarrow> bool) \<Rightarrow> bool" where
  "hoare P m Q = (\<forall>s c s'. P s \<longrightarrow> m s = (c, s') \<longrightarrow> Q c s')"





text \<open>
  Two states that agree on \<open>self.driver\<close> and on the calls that \<open>keep\<close> selects;
  \<open>sim keep a b\<close>: from such states, \<open>a\<close> and \<open>b\<close> end the same way, in such states.
\<close>

definition related :: "(event \<Rightarrow> bool) \<Rightarrow> state \<Rightarrow> state \<Rightarrow> bool" where
  "related keep s t = (driver s = driver t \<and> filter keep (events s) = filter keep (events t))"

definition sim :: "(event \<Rightarrow> bool) \<Rightarrow> stmt \<Rightarrow> stmt \<Rightarrow> bool" where
  "sim keep a b =
     (\<forall>s t c s' d t'. related keep s t \<longrightarrow> a s = (c, s') \<longrightarrow> b t = (d, t') \<longrightarrow>
        c = d \<and> related keep s' t')"

section \<open>Rules for statements\<close>

lemma preserves_pass: "preserves I pass"
  by (simp add: preserves_def pass_def)

lemma preserves_return: "preserves I (return_stmt r)"
  by (simp add: preserves_def return_stmt_def)

lemma preserves_call:
  assumes "\<And>s. I s \<Longrightarrow> I (s\<lparr>events := events s @ [ev]\<rparr>)"
  shows "preserves I (call ev out)"
  by (simp add: preserves_def call_def assms)

lemma preserves_call_back:
  assumes "\<And>s. I s \<Longrightarrow> I (s\<lparr>events := events s @ [ev]\<rparr>)"
  shows "preserves I (call_back ev out)"
  by (simp add: preserves_def call_back_def assms)

lemma preserves_report:
  assumes "\<And>s. I s \<Longrightarrow> I (s\<lparr>events := events s @ [Progress p m]\<rparr>)"
  shows "preserves I (report cb p m)"
proof (cases cb)
  case None
  then show ?thesis by (simp add: report_def preserves_pass)
next
  case (Some f)
  have "preserves I (call_back (Progress p m) (f p m))"
    by (rule preserves_call_back) (rule assms)
  with Some show ?thesis by (simp add: report_def)
qed

lemma preserves_seq:
  assumes "preserves I a" and "preserves I b"
  shows "preserves I (seq a b)"
  unfolding preserves_def
proof (intro allI impI)
  fix s c s'
  assume i: "I s" and r: "seq a b s = (c, s')"
  obtain c1 s1 where a: "a s = (c1, s1)" by (cases "a s")
  from assms(1) i a have i1: "I s1" unfolding preserves_def by blast
  show "I s'"
  proof (cases c1)
    case Normal
    with r a have "b s1 = (c, s')" by (simp add: seq_def)
    with assms(2) i1 show ?thesis unfolding preserves_def by blast
  next
    case (Return x)
    with r a i1 show ?thesis by (simp add: seq_def)
  next
    case (Raise e)
    with r a i1 show ?thesis by (simp add: seq_def)
  qed
qed

lemma preserves_try:
  assumes "preserves I a" and "\<And>e. preserves I (h e)"
  shows "preserves I (try_except a h)"
  unfolding preserves_def
proof (intro allI impI)
  fix s c s'
  assume i: "I s" and r: "try_except a h s = (c, s')"
  obtain c1 s1 where a: "a s = (c1, s1)" by (cases "a s")
  from assms(1) i a have i1: "I s1" unfolding preserves_def by blast
  show "I s'"
  proof (cases c1)
    case Normal
    with r a i1 show ?thesis by (simp add: try_except_def)
  next
    case (Return x)
    with r a i1 show ?thesis by (simp add: try_except_def)
  next
    case (Raise x)
    show ?thesis
    proof (cases x)
      case (Exception e)
      with Raise r a have "h e s1 = (c, s')" by (simp add: try_except_def)
      with assms(2) [of e] i1 show ?thesis unfolding preserves_def by blast
    next
      case (Non_Exception e)
      with Raise r a i1 show ?thesis by (simp add: try_except_def)
    qed
  qed
qed

lemmas preserves_intros =
  preserves_seq preserves_try preserves_pass preserves_return










section \<open>The body of the outer try\<close>

text \<open>
  The body makes no call of \<open>quit\<close>, so it keeps whatever holds on to every other call;
  it leaves \<open>self.driver\<close> alone; and it never runs off its end.
\<close>

lemma body_preserves:
  assumes "\<And>ev s. \<not> is_quit ev \<Longrightarrow> I s \<Longrightarrow> I (s\<lparr>events := events s @ [ev]\<rparr>)"
  shows "preserves I (capture_body uni br target_url username email cb)"
  unfolding capture_body_def handle_cookie_consent_def
  by (intro preserves_intros preserves_call preserves_report assms) (simp_all add: is_quit_def)

lemma body_driver:
  assumes "capture_body uni br target_url username email cb s = (c, s')"
  shows "driver s' = driver s"
proof -
  have "preserves (\<lambda>t. driver t = driver s)
          (capture_body uni br target_url username email cb)"
    by (rule body_preserves) simp
  with assms show ?thesis
    unfolding preserves_def by blast
qed



section \<open>The whole call\<close>

lemma setup_failure:
  assumes "Chrome br = Raises e"
  shows "capture_accessibility_test uni br target_url username email cb s =
           (Return (False, lit ''Failed to setup browser driver'', None),
            s\<lparr>events := events s @ [NewChrome]\<rparr>)"
  using assms by (simp add: capture_accessibility_test_def setup_driver_def)

text \<open>
  With a session, the session is closed last. When the close returns, the call ends as
  its body does, but that an \<open>Exception\<close> of the body becomes the result of the outer
  handler; when the close raises, that exception leaves the call.
\<close>

lemma run_unfold:
  assumes "Chrome br = Returns d"
    and "capture_body uni br target_url username email cb
           (s\<lparr>driver := Some d, events := events s @ [NewChrome]\<rparr>) = (c, s2)"
  shows "capture_accessibility_test uni br target_url username email cb s =
           ((case quit br of
               Returns u \<Rightarrow>
                 (case c of
                    Raise (Exception e) \<Rightarrow> Return (False, lit ''An error occurred: '' @ e, None)
                  | _ \<Rightarrow> c)
             | Raises q \<Rightarrow> Raise (Exception q)),
            s2\<lparr>events := events s2 @ [Quit d]\<rparr>)"
proof -
  have "driver s2 = Some d"
    using body_driver [OF assms(2)] by simp
  then show ?thesis
    using assms
    by (simp add: capture_accessibility_test_def setup_driver_def
        try_finally_def try_except_def return_stmt_def call_def
        split: completion.splits exc.splits outcome.splits)
qed

lemma run_unfold_events:
  assumes "Chrome br = Returns d"
    and "capture_body uni br target_url username email cb
           (s\<lparr>driver := Some d, events := events s @ [NewChrome]\<rparr>) = (c, s2)"
  shows "events (snd (capture_accessibility_test uni br target_url username email cb s)) =
           events s2 @ [Quit d]"
  by (simp add: run_unfold [OF assms])

lemma run_unfold_result:
  assumes "Chrome br = Returns d"
    and "capture_body uni br target_url username email cb
           (s\<lparr>driver := Some d, events := events s @ [NewChrome]\<rparr>) = (c, s2)"
    and "is_Returns (quit br)"
  shows "fst (capture_accessibility_test uni br target_url username email cb s) =
           (case c of
              Raise (Exception e) \<Rightarrow> Return (False, lit ''An error occurred: '' @ e, None)
            | _ \<Rightarrow> c)"
proof -
  from assms(3) obtain u where "quit br = Returns u"
    by (cases "quit br") simp_all
  then show ?thesis
    by (simp add: run_unfold [OF assms(1,2)])
qed

lemmas run_defs =
  capture_accessibility_test_def capture_body_def handle_cookie_consent_def setup_driver_def
  pass_def return_stmt_def call_def call_back_def seq_def try_except_def try_finally_def
  report_def

section \<open>Session setup fails\<close>

text \<open>
  C6. When the browser session cannot be created, the call returns
  \<open>(False, "Failed to setup browser driver", None)\<close>, and the attempt to start Chrome is
  the only call it makes: no navigation, no later stage, no close.
\<close>

theorem setup_failure_result:
  assumes "Chrome br = Raises e"
  shows "fst (capture_accessibility_test uni br target_url username email cb s) =
           Return (False, lit ''Failed to setup browser driver'', None) \<and>
         events (snd (capture_accessibility_test uni br target_url username email cb s)) =
           events s @ [NewChrome] \<and>
         driver (snd (capture_accessibility_test uni br target_url username email cb s)) =
           driver s"
  using assms by (simp add: capture_accessibility_test_def setup_driver_def)

theorem setup_failure_result_witness:
  "Chrome (cooperative\<lparr>Chrome := Raises (lit ''chromedriver not found'')\<rparr>) =
     Raises (lit ''chromedriver not found'') \<and>
   fst (capture_accessibility_test ascii_only
          (cooperative\<lparr>Chrome := Raises (lit ''chromedriver not found'')\<rparr>)
          (lit ''https://example.com'') (lit ''Ada'') (lit ''ada@example.com'') (Some quiet)
          new_tester) =
     Return (False, lit ''Failed to setup browser driver'', None) \<and>
   events (snd (capture_accessibility_test ascii_only
          (cooperative\<lparr>Chrome := Raises (lit ''chromedriver not found'')\<rparr>)
          (lit ''https://example.com'') (lit ''Ada'') (lit ''ada@example.com'') (Some quiet)
          new_tester)) = [NewChrome]"
  using setup_failure_result
    [of "cooperative\<lparr>Chrome := Raises (lit ''chromedriver not found'')\<rparr>"
        "lit ''chromedriver not found''" ascii_only "lit ''https://example.com''"
        "lit ''Ada''" "lit ''ada@example.com''" "Some quiet" new_tester]
  by (simp add: new_tester_def)

section \<open>The session is closed once\<close>

text \<open>
  C2. On every way out of a call that created a session, \<open>driver.quit()\<close> is called
  exactly once, for that session; when session setup failed, it is not called.
\<close>

theorem quit_exactly_once:
  "filter is_quit
     (events (snd (capture_accessibility_test uni br target_url username email cb s))) =
   filter is_quit (events s) @ (case Chrome br of Returns d \<Rightarrow> [Quit d] | Raises e \<Rightarrow> [])"
proof (cases "Chrome br")
  case (Raises e)
  then show ?thesis
    by (simp add: setup_failure is_quit_def)
next
  case (Returns d)
  obtain c s2 where b: "capture_body uni br target_url username email cb
        (s\<lparr>driver := Some d, events := events s @ [NewChrome]\<rparr>) = (c, s2)"
    by (cases "capture_body uni br target_url username email cb
        (s\<lparr>driver := Some d, events := events s @ [NewChrome]\<rparr>)")
  have p: "preserves (\<lambda>t. filter is_quit (events t) = filter is_quit (events s))
          (capture_body uni br target_url username email cb)"
    by (rule body_preserves) simp
  have i: "filter is_quit (events
        (s\<lparr>driver := Some d, events := events s @ [NewChrome]\<rparr>)) = filter is_quit (events s)"
    by (simp add: is_quit_def)
  have "filter is_quit (events s2) = filter is_quit (events s)"
    using p [unfolded preserves_def, rule_format, OF i b] .
  then show ?thesis
    using Returns by (simp add: run_unfold_events [OF Returns b] is_quit_def)
qed

section \<open>A result is returned\<close>




section \<open>Two runs side by side\<close>

lemma sim_pass: "sim keep pass pass"
  by (simp add: sim_def pass_def)

lemma sim_return: "sim keep (return_stmt r) (return_stmt r)"
  by (simp add: sim_def return_stmt_def)

lemma sim_call: "sim keep (call ev out) (call ev out)"
  by (simp add: sim_def call_def related_def)

lemma sim_call_back: "sim keep (call_back ev out) (call_back ev out)"
  by (simp add: sim_def call_back_def related_def)

lemma sim_report: "sim keep (report cb p m) (report cb p m)"
  by (cases cb) (simp_all add: report_def sim_pass sim_call_back)

lemma sim_seq:
  assumes "sim keep a a'" and "sim keep b b'"
  shows "sim keep (seq a b) (seq a' b')"
  unfolding sim_def
proof (intro allI impI)
  fix s t c s' d t'
  assume rel: "related keep s t"
    and r1: "seq a b s = (c, s')" and r2: "seq a' b' t = (d, t')"
  obtain c1 s1 where a1: "a s = (c1, s1)" by (cases "a s")
  obtain d1 t1 where a2: "a' t = (d1, t1)" by (cases "a' t")
  from assms(1) rel a1 a2 have eq: "d1 = c1" and rel1: "related keep s1 t1"
    unfolding sim_def by blast+
  note a2 = a2 [unfolded eq]
  show "c = d \<and> related keep s' t'"
  proof (cases c1)
    case Normal
    with r1 a1 have b1: "b s1 = (c, s')" by (simp add: seq_def)
    from Normal r2 a2 have b2: "b' t1 = (d, t')" by (simp add: seq_def)
    from assms(2) rel1 b1 b2 show ?thesis unfolding sim_def by blast
  next
    case (Return x)
    from Return r1 a1 have "c = Return x" and "s' = s1" by (simp_all add: seq_def)
    moreover from Return r2 a2 have "d = Return x" and "t' = t1" by (simp_all add: seq_def)
    ultimately show ?thesis using rel1 by simp
  next
    case (Raise e)
    from Raise r1 a1 have "c = Raise e" and "s' = s1" by (simp_all add: seq_def)
    moreover from Raise r2 a2 have "d = Raise e" and "t' = t1" by (simp_all add: seq_def)
    ultimately show ?thesis using rel1 by simp
  qed
qed

lemma sim_try:
  assumes "sim keep a a'" and "\<And>e. sim keep (h e) (h' e)"
  shows "sim keep (try_except a h) (try_except a' h')"
  unfolding sim_def
proof (intro allI impI)
  fix s t c s' d t'
  assume rel: "related keep s t"
    and r1: "try_except a h s = (c, s')" and r2: "try_except a' h' t = (d, t')"
  obtain c1 s1 where a1: "a s = (c1, s1)" by (cases "a s")
  obtain d1 t1 where a2: "a' t = (d1, t1)" by (cases "a' t")
  from assms(1) rel a1 a2 have eq: "d1 = c1" and rel1: "related keep s1 t1"
    unfolding sim_def by blast+
  note a2 = a2 [unfolded eq]
  show "c = d \<and> related keep s' t'"
  proof (cases c1)
    case Normal
    from Normal r1 a1 have "c = Normal" and "s' = s1" by (simp_all add: try_except_def)
    moreover from Normal r2 a2 have "d = Normal" and "t' = t1" by (simp_all add: try_except_def)
    ultimately show ?thesis using rel1 by simp
  next
    case (Return x)
    from Return r1 a1 have "c = Return x" and "s' = s1" by (simp_all add: try_except_def)
    moreover from Return r2 a2 have "d = Return x" and "t' = t1" by (simp_all add: try_except_def)
    ultimately show ?thesis using rel1 by simp
  next
    case (Raise x)
    show ?thesis
    proof (cases x)
      case (Exception e)
      with Raise r1 a1 have b1: "h e s1 = (c, s')" by (simp add: try_except_def)
      from Exception Raise r2 a2 have b2: "h' e t1 = (d, t')" by (simp add: try_except_def)
      from assms(2) [of e] rel1 b1 b2 show ?thesis unfolding sim_def by blast
    next
      case (Non_Exception e)
      with Raise r1 a1 have "c = Raise x" and "s' = s1" by (simp_all add: try_except_def)
      moreover from Non_Exception Raise r2 a2 have "d = Raise x" and "t' = t1"
        by (simp_all add: try_except_def)
      ultimately show ?thesis using rel1 by simp
    qed
  qed
qed

text \<open>A callback that returns changes nothing but the progress calls.\<close>

lemma sim_report_none:
  assumes "is_Returns (f p m)" and "\<not> keep (Progress p m)"
  shows "sim keep (report (Some f) p m) (report None p m)"
proof -
  from assms(1) obtain v where "f p m = Returns v"
    by (cases "f p m") simp_all
  with assms(2) show ?thesis
    by (simp add: sim_def report_def call_back_def pass_def related_def)
qed

text \<open>The consent stage ends normally, whatever the browser answers.\<close>

lemma consent_normal: "fst (handle_cookie_consent br s) = Normal"
  by (cases "until_presence br 10 consent_xpath"; cases "click br consent_xpath")
     (simp_all add: handle_cookie_consent_def try_except_def seq_def call_def pass_def)

lemma consent_events:
  "filter (\<lambda>e. e \<noteq> Click consent_xpath) (events (snd (handle_cookie_consent br s))) =
   filter (\<lambda>e. e \<noteq> Click consent_xpath) (events s) @ [UntilPresence 10 consent_xpath]"
  by (cases "until_presence br 10 consent_xpath"; cases "click br consent_xpath")
     (simp_all add: handle_cookie_consent_def try_except_def seq_def call_def pass_def)

lemma consent_driver: "driver (snd (handle_cookie_consent br s)) = driver s"
  by (cases "until_presence br 10 consent_xpath"; cases "click br consent_xpath")
     (simp_all add: handle_cookie_consent_def try_except_def seq_def call_def pass_def)

lemma sim_consent:
  "sim (\<lambda>e. e \<noteq> Click consent_xpath) (handle_cookie_consent br) (handle_cookie_consent br')"
  unfolding sim_def
proof (intro allI impI)
  fix s t c s' d t'
  assume rel: "related (\<lambda>e. e \<noteq> Click consent_xpath) s t"
    and r1: "handle_cookie_consent br s = (c, s')"
    and r2: "handle_cookie_consent br' t = (d, t')"
  from r1 consent_normal [of br s] have c: "c = Normal" by simp
  from r2 consent_normal [of br' t] have d: "d = Normal" by simp
  from r1 consent_events [of br s] consent_driver [of br s]
  have s': "filter (\<lambda>e. e \<noteq> Click consent_xpath) (events s') =
     filter (\<lambda>e. e \<noteq> Click consent_xpath) (events s) @ [UntilPresence 10 consent_xpath]"
    and ds: "driver s' = driver s" by simp_all
  from r2 consent_events [of br' t] consent_driver [of br' t]
  have t': "filter (\<lambda>e. e \<noteq> Click consent_xpath) (events t') =
     filter (\<lambda>e. e \<noteq> Click consent_xpath) (events t) @ [UntilPresence 10 consent_xpath]"
    and dt: "driver t' = driver t" by simp_all
  from rel s' t' ds dt c d
  show "c = d \<and> related (\<lambda>e. e \<noteq> Click consent_xpath) s' t'"
    by (simp add: related_def)
qed

text \<open>From the bodies to the whole calls.\<close>

lemma run_sim:
  assumes "Chrome br' = Chrome br" and "quit br' = quit br"
    and "sim keep (capture_body uni br target_url username email cb)
           (capture_body uni br' target_url username email cb')"
  shows "fst (capture_accessibility_test uni br target_url username email cb s) =
         fst (capture_accessibility_test uni br' target_url username email cb' s) \<and>
         filter keep (events (snd (capture_accessibility_test uni br target_url username email cb s))) =
         filter keep (events (snd (capture_accessibility_test uni br' target_url username email cb' s)))"
proof (cases "Chrome br")
  case (Raises e)
  with assms(1) have "Chrome br' = Raises e" by simp
  with Raises show ?thesis by (simp add: setup_failure)
next
  case (Returns d)
  with assms(1) have r': "Chrome br' = Returns d" by simp
  let ?s1 = "s\<lparr>driver := Some d, events := events s @ [NewChrome]\<rparr>"
  obtain c s2 where b: "capture_body uni br target_url username email cb ?s1 = (c, s2)"
    by (cases "capture_body uni br target_url username email cb ?s1")
  obtain c' s2' where b': "capture_body uni br' target_url username email cb' ?s1 = (c', s2')"
    by (cases "capture_body uni br' target_url username email cb' ?s1")
  have "related keep ?s1 ?s1" by (simp add: related_def)
  with assms(3) b b' have eq: "c' = c" and rel: "related keep s2 s2'"
    unfolding sim_def by blast+
  note b' = b' [unfolded eq]
  from rel show ?thesis
    by (simp add: run_unfold [OF Returns b] run_unfold [OF r' b'] assms(2) related_def)
qed

section \<open>The progress callback\<close>

lemma body_sim_callback:
  assumes "\<forall>p m. is_Returns (f p m)"
  shows "sim (\<lambda>e. \<not> is_progress e)
           (capture_body uni br target_url username email (Some f))
           (capture_body uni br target_url username email None)"
  unfolding capture_body_def handle_cookie_consent_def
  by (intro sim_seq sim_try sim_call sim_pass sim_return sim_report_none)
     (simp_all add: assms is_progress_def)

text \<open>
  C10. The triple returned does not depend on whether a progress callback is given: with
  the same browser, a call with a callback that never raises returns what the call
  without a callback returns, and both make the same calls to the browser.
\<close>

theorem callback_does_not_change_result:
  assumes "\<forall>p m. is_Returns (f p m)"
  shows "fst (capture_accessibility_test uni br target_url username email (Some f) s) =
         fst (capture_accessibility_test uni br target_url username email None s) \<and>
         filter (\<lambda>e. \<not> is_progress e)
           (events (snd (capture_accessibility_test uni br target_url username email (Some f) s))) =
         filter (\<lambda>e. \<not> is_progress e)
           (events (snd (capture_accessibility_test uni br target_url username email None s)))"
  by (rule run_sim) (simp_all add: body_sim_callback [OF assms])

theorem callback_does_not_change_result_witness:
  "is_Returns (quiet 10 (lit ''Setting up browser...'')) \<and>
   fst (capture_accessibility_test ascii_only cooperative (lit ''https://example.com'')
          (lit ''Ada'') (lit ''ada@example.com'') (Some quiet) new_tester) =
   fst (capture_accessibility_test ascii_only cooperative (lit ''https://example.com'')
          (lit ''Ada'') (lit ''ada@example.com'') None new_tester)"
proof -
  have q: "\<forall>p m. is_Returns (quiet p m)"
    by (simp add: quiet_def)
  from callback_does_not_change_result [OF q, of ascii_only cooperative
      "lit ''https://example.com''" "lit ''Ada''" "lit ''ada@example.com''" new_tester] q
  show ?thesis by simp
qed

section \<open>The consent dialog\<close>

lemma xpath_distinct:
  "iframe_xpath \<noteq> consent_xpath"
  "get_report_button_xpath \<noteq> consent_xpath"
  "name_field_xpath \<noteq> consent_xpath"
  by (simp_all add: iframe_xpath_def get_report_button_xpath_def name_field_xpath_def
      consent_xpath_def lit_def)

lemma body_sim_consent:
  assumes "same_except_consent br br'"
  shows "sim (\<lambda>e. e \<noteq> Click consent_xpath)
           (capture_body uni br' target_url username email cb)
           (capture_body uni br target_url username email cb)"
proof -
  from assms have eqs:
    "get br' = get br" "find_element br' = find_element br"
    "switch_to_frame br' = switch_to_frame br" "save_screenshot br' = save_screenshot br"
    "execute_script br' = execute_script br" "send_keys br' = send_keys br"
    "until_presence br' 30 iframe_xpath = until_presence br 30 iframe_xpath"
    "until_presence br' 10 get_report_button_xpath = until_presence br 10 get_report_button_xpath"
    "until_presence br' 30 name_field_xpath = until_presence br 30 name_field_xpath"
    by (simp_all add: same_except_consent_def xpath_distinct)
  show ?thesis
    unfolding capture_body_def eqs
    by (intro sim_seq sim_try sim_call sim_pass sim_return sim_report sim_consent)
qed

text \<open>
  C7. Whatever happens while the consent button is located or clicked is absorbed in the
  consent stage, which always ends normally, so the run goes on to the next statement.
  Two runs that differ only in what the browser answers about the consent button (dialog
  dismissed, absent, or click failed) return the same triple and make the same calls, but
  for the click on the button.
\<close>

theorem consent_never_changes_outcome:
  "fst (handle_cookie_consent br s) = Normal \<and>
   (same_except_consent br br' \<longrightarrow>
      fst (capture_accessibility_test uni br' target_url username email cb s) =
      fst (capture_accessibility_test uni br target_url username email cb s) \<and>
      filter (\<lambda>e. e \<noteq> Click consent_xpath)
        (events (snd (capture_accessibility_test uni br' target_url username email cb s))) =
      filter (\<lambda>e. e \<noteq> Click consent_xpath)
        (events (snd (capture_accessibility_test uni br target_url username email cb s))))"
proof (intro conjI impI)
  show "fst (handle_cookie_consent br s) = Normal"
    by (rule consent_normal)
next
  assume a: "same_except_consent br br'"
  then have c: "Chrome br = Chrome br'" and q: "quit br = quit br'"
    by (simp_all add: same_except_consent_def)
  from run_sim [OF c q body_sim_consent [OF a]]
  show "fst (capture_accessibility_test uni br' target_url username email cb s) =
      fst (capture_accessibility_test uni br target_url username email cb s)"
    and "filter (\<lambda>e. e \<noteq> Click consent_xpath)
        (events (snd (capture_accessibility_test uni br' target_url username email cb s))) =
      filter (\<lambda>e. e \<noteq> Click consent_xpath)
        (events (snd (capture_accessibility_test uni br target_url username email cb s)))"
    by simp_all
qed

theorem consent_never_changes_outcome_witness:
  "same_except_consent cooperative no_dialog \<and>
   until_presence cooperative 10 consent_xpath = Returns () \<and>
   until_presence no_dialog 10 consent_xpath = Raises (lit ''Message: '') \<and>
   fst (capture_accessibility_test ascii_only no_dialog (lit ''https://example.com'')
          (lit ''Ada'') (lit ''ada@example.com'') None new_tester) =
   fst (capture_accessibility_test ascii_only cooperative (lit ''https://example.com'')
          (lit ''Ada'') (lit ''ada@example.com'') None new_tester)"
proof -
  have a: "same_except_consent cooperative no_dialog"
    by (simp add: same_except_consent_def no_dialog_def cooperative_def)
  from consent_never_changes_outcome [of cooperative new_tester no_dialog ascii_only
      "lit ''https://example.com''" "lit ''Ada''" "lit ''ada@example.com''" None] a
  have "fst (capture_accessibility_test ascii_only no_dialog (lit ''https://example.com'')
          (lit ''Ada'') (lit ''ada@example.com'') None new_tester) =
   fst (capture_accessibility_test ascii_only cooperative (lit ''https://example.com'')
          (lit ''Ada'') (lit ''ada@example.com'') None new_tester)"
    by blast
  with a show ?thesis
    by (simp add: no_dialog_def cooperative_def)
qed

section \<open>The file name\<close>

lemma lit_append: "lit (a @ b) = lit a @ lit b"
  by (simp add: lit_def)

lemma format_filename_example:
  "format_filename uni (lit ''https://example.com'') = lit ''examplecom''"
  by (simp add: format_filename_def strip_slash_def lit_def word_char_def isalnum_def
      ascii_alnum_def)

lemma screenshot_path_example:
  "screenshot_path uni (lit ''https://example.com'') =
     lit ''accessibility_results_examplecom.png''"
  by (simp add: screenshot_path_def format_filename_example) (simp add: lit_def)

text \<open>
  C5, as amended. \<open>format_filename\<close> is a function of the URL alone (it reads no state
  and the embedding has none to give it), so two calls on the same URL give the same
  string; and every code point of its value is alphanumeric or an underscore, the
  code points that \<open>\w\<close> admits.
\<close>

theorem format_filename_word_chars:
  "list_all (word_char uni) (format_filename uni url)"
  by (simp add: format_filename_def list_all_iff)

theorem format_filename_word_chars_witness:
  "list_all (word_char ascii_only) (format_filename ascii_only (lit ''https://my_site.com/''))"
  using format_filename_word_chars [of ascii_only "lit ''https://my_site.com/''"] by simp

text \<open>
  The claim as stated fails: the underscore of \<open>https://my_site.com/\<close> is kept, and
  it is not alphanumeric.
\<close>

theorem format_filename_keeps_underscore:
  "format_filename ascii_only (lit ''https://my_site.com/'') = lit ''my_sitecom'' \<and>
   of_char (CHR ''_'') \<in> set (format_filename ascii_only (lit ''https://my_site.com/'')) \<and>
   \<not> isalnum ascii_only (of_char (CHR ''_''))"
  by (simp add: format_filename_def strip_slash_def lit_def word_char_def isalnum_def
      ascii_alnum_def)

section \<open>A run in which every stage succeeds\<close>

lemma call_returns:
  "is_Returns out \<Longrightarrow> call ev out s = (Normal, s\<lparr>events := events s @ [ev]\<rparr>)"
  by (cases out) (simp_all add: call_def)

lemma call_back_returns:
  "is_Returns out \<Longrightarrow> call_back ev out s = (Normal, s\<lparr>events := events s @ [ev]\<rparr>)"
  by (cases out) (simp_all add: call_back_def)

lemma report_returns:
  "callback_returns cb \<Longrightarrow> fst (report cb p m s) = Normal"
  by (cases cb) (simp_all add: callback_returns_def report_def pass_def call_back_returns)

lemma seq_normal: "fst (a s) = Normal \<Longrightarrow> seq a b s = b (snd (a s))"
  by (cases "a s") (simp add: seq_def)

lemma try_normal: "fst (a s) = Normal \<Longrightarrow> try_except a h s = (Normal, snd (a s))"
  by (cases "a s") (simp add: try_except_def)

lemma try_return: "fst (a s) = Return r \<Longrightarrow> try_except a h s = (Return r, snd (a s))"
  by (cases "a s") (simp add: try_except_def)

lemma body_success:
  assumes "stages_succeed uni br target_url username email" and "callback_returns cb"
  shows "fst (capture_body uni br target_url username email cb s) =
           Return (True, lit ''Report for URL: '' @ target_url @ lit '' sent to email: '' @ email,
                   Some (screenshot_path uni target_url))"
  using assms unfolding stages_succeed_def capture_body_def
  by (simp add: seq_normal try_normal try_return call_returns report_returns consent_normal
      return_stmt_def)

lemma run_success:
  assumes "stages_succeed uni br target_url username email" and "callback_returns cb"
  shows "fst (capture_accessibility_test uni br target_url username email cb s) =
           Return (True, lit ''Report for URL: '' @ target_url @ lit '' sent to email: '' @ email,
                   Some (screenshot_path uni target_url))"
proof -
  from assms(1) obtain d where c: "Chrome br = Returns d"
    by (cases "Chrome br") (simp_all add: stages_succeed_def)
  from assms(1) have q: "is_Returns (quit br)"
    by (simp add: stages_succeed_def)
  obtain r s2 where b: "capture_body uni br target_url username email cb
        (s\<lparr>driver := Some d, events := events s @ [NewChrome]\<rparr>) = (r, s2)"
    by (cases "capture_body uni br target_url username email cb
        (s\<lparr>driver := Some d, events := events s @ [NewChrome]\<rparr>)")
  from body_success [OF assms, of "s\<lparr>driver := Some d, events := events s @ [NewChrome]\<rparr>"] b
  have "r = Return (True, lit ''Report for URL: '' @ target_url @ lit '' sent to email: '' @ email,
                   Some (screenshot_path uni target_url))"
    by simp
  then show ?thesis
    by (simp add: run_unfold_result [OF c b q])
qed

lemma cooperative_succeeds: "stages_succeed uni cooperative target_url username email"
  by (simp add: stages_succeed_def cooperative_def)

text \<open>
  C8. For \<open>target_url = "https://example.com"\<close>, if every stage succeeds, the result is
  \<open>success = True\<close>, a message that contains \<open>example.com\<close> and the email, and the
  screenshot path \<open>accessibility_results_examplecom.png\<close>.
\<close>

theorem example_com_scenario:
  assumes "stages_succeed uni br (lit ''https://example.com'') username email"
    and "callback_returns cb"
  shows "fst (capture_accessibility_test uni br (lit ''https://example.com'') username email cb s) =
           Return (True,
                   lit ''Report for URL: '' @ lit ''https://example.com'' @
                     lit '' sent to email: '' @ email,
                   Some (lit ''accessibility_results_examplecom.png'')) \<and>
         sublist (lit ''example.com'')
           (lit ''Report for URL: '' @ lit ''https://example.com'' @
              lit '' sent to email: '' @ email) \<and>
         sublist email
           (lit ''Report for URL: '' @ lit ''https://example.com'' @
              lit '' sent to email: '' @ email)"
proof (intro conjI)
  show "fst (capture_accessibility_test uni br (lit ''https://example.com'') username email cb s) =
           Return (True,
                   lit ''Report for URL: '' @ lit ''https://example.com'' @
                     lit '' sent to email: '' @ email,
                   Some (lit ''accessibility_results_examplecom.png''))"
    using run_success [OF assms] by (simp add: screenshot_path_example)
next
  have "lit ''https://example.com'' = lit ''https://'' @ lit ''example.com''"
    by (simp add: lit_def)
  then have "lit ''Report for URL: '' @ lit ''https://example.com'' @
        lit '' sent to email: '' @ email =
      (lit ''Report for URL: '' @ lit ''https://'') @ lit ''example.com'' @
        (lit '' sent to email: '' @ email)"
    by simp
  then show "sublist (lit ''example.com'')
           (lit ''Report for URL: '' @ lit ''https://example.com'' @
              lit '' sent to email: '' @ email)"
    unfolding sublist_def by blast
next
  have "lit ''Report for URL: '' @ lit ''https://example.com'' @
        lit '' sent to email: '' @ email =
      (lit ''Report for URL: '' @ lit ''https://example.com'' @
        lit '' sent to email: '') @ email @ []"
    by simp
  then show "sublist email
           (lit ''Report for URL: '' @ lit ''https://example.com'' @
              lit '' sent to email: '' @ email)"
    unfolding sublist_def by blast
qed

theorem example_com_scenario_witness:
  "stages_succeed ascii_only cooperative (lit ''https://example.com'') (lit ''Ada'')
     (lit ''ada@example.com'') \<and>
   callback_returns (Some quiet) \<and>
   fst (capture_accessibility_test ascii_only cooperative (lit ''https://example.com'')
          (lit ''Ada'') (lit ''ada@example.com'') (Some quiet) new_tester) =
     Return (True,
             lit ''Report for URL: '' @ lit ''https://example.com'' @
               lit '' sent to email: '' @ lit ''ada@example.com'',
             Some (lit ''accessibility_results_examplecom.png''))"
proof -
  have a: "stages_succeed ascii_only cooperative (lit ''https://example.com'') (lit ''Ada'')
     (lit ''ada@example.com'')"
    by (rule cooperative_succeeds)
  have q: "callback_returns (Some quiet)"
    by (simp add: callback_returns_def quiet_def)
  from example_com_scenario [OF a q, of new_tester] a q show ?thesis
    by blast
qed

section \<open>The screenshot path after the screenshot\<close>

text \<open>
  C1 does not hold of the code. Every handler of a later stage returns the screenshot
  path, but the outermost handler returns \<open>None\<close> in its place. After the screenshot
  the progress callback is called outside of the stage handlers (checkpoints 80 and 90),
  so an exception of the callback there ends the run in the outermost handler: the
  screenshot file is written and the result carries no path.
\<close>

theorem outer_handler_drops_screenshot_path:
  "save_screenshot cooperative (screenshot_path ascii_only (lit ''https://example.com'')) =
     Returns True \<and>
   SaveScreenshot (lit ''accessibility_results_examplecom.png'') \<in>
     set (events (snd (capture_accessibility_test ascii_only cooperative
       (lit ''https://example.com'') (lit ''Ada'') (lit ''ada@example.com'')
       (Some (failing_at 80)) new_tester))) \<and>
   fst (capture_accessibility_test ascii_only cooperative
       (lit ''https://example.com'') (lit ''Ada'') (lit ''ada@example.com'')
       (Some (failing_at 80)) new_tester) =
     Return (False, lit ''An error occurred: '' @ lit ''callback failed'', None)"
  by (simp add: run_defs cooperative_def failing_at_def new_tester_def screenshot_path_example)

section \<open>Cutting the body at a statement\<close>

text \<open>
  When the statements before a point keep \<open>J\<close>, and \<open>J\<close> gives \<open>Q\<close> for every way out
  other than going on, what remains is the rest of the body from a state with \<open>J\<close>.
\<close>

lemma hoare_seq_inv:
  assumes "preserves J a"
    and "\<And>c s. J s \<Longrightarrow> c \<noteq> Normal \<Longrightarrow> Q c s"
    and "hoare J b Q"
  shows "hoare J (seq a b) Q"
  unfolding hoare_def
proof (intro allI impI)
  fix s c s'
  assume j: "J s" and r: "seq a b s = (c, s')"
  obtain c1 s1 where a: "a s = (c1, s1)" by (cases "a s")
  from assms(1) j a have j1: "J s1" unfolding preserves_def by blast
  show "Q c s'"
  proof (cases c1)
    case Normal
    with r a have "b s1 = (c, s')" by (simp add: seq_def)
    with assms(3) j1 show ?thesis unfolding hoare_def by blast
  next
    case (Return x)
    from Return r a have "c = Return x" and "s' = s1" by (simp_all add: seq_def)
    with assms(2) [OF j1, of c] show ?thesis by simp
  next
    case (Raise e)
    from Raise r a have "c = Raise e" and "s' = s1" by (simp_all add: seq_def)
    with assms(2) [OF j1, of c] show ?thesis by simp
  qed
qed

lemmas preserves_rules =
  preserves_seq preserves_try preserves_pass preserves_return preserves_call preserves_report

section \<open>The screenshot call raises\<close>

lemma body_screenshot_fault:
  assumes "save_screenshot br (screenshot_path uni target_url) = Raises e"
  shows "hoare (\<lambda>s. SaveScreenshot (screenshot_path uni target_url) \<notin> set (events s))
           (capture_body uni br target_url username email cb)
           (\<lambda>c s. SaveScreenshot (screenshot_path uni target_url) \<in> set (events s) \<longrightarrow>
              c = Raise (Exception e) \<and>
              (\<exists>evs. events s = evs @ [SaveScreenshot (screenshot_path uni target_url)]))"
  unfolding capture_body_def handle_cookie_consent_def
  apply (rule hoare_seq_inv, (intro preserves_rules; simp), simp)
  apply (rule hoare_seq_inv, (intro preserves_rules; simp), simp)
  apply (rule hoare_seq_inv, (intro preserves_rules; simp), simp)
  apply (rule hoare_seq_inv, (intro preserves_rules; simp), simp)
  apply (rule hoare_seq_inv, (intro preserves_rules; simp), simp)
  apply (rule hoare_seq_inv, (intro preserves_rules; simp), simp)
  apply (rule hoare_seq_inv, (intro preserves_rules; simp), simp)
  apply (rule hoare_seq_inv, (intro preserves_rules; simp), simp)
  apply (rule hoare_seq_inv, (intro preserves_rules; simp), simp)
  apply (rule hoare_seq_inv, (intro preserves_rules; simp), simp)
  apply (simp add: hoare_def seq_def call_def assms)
  done

text \<open>
  C4, as amended. When the \<open>save_screenshot\<close> call raises, the run ends there: the
  exception is caught by the outermost handler, after the screenshot call the only call
  made is the close of the session, so that no later stage is attempted, and, the close
  returning, the result is \<open>(False, "An error occurred: " + str(e), None)\<close>.
\<close>

theorem screenshot_fault_is_fatal:
  assumes "save_screenshot br (screenshot_path uni target_url) = Raises e"
    and "is_Returns (quit br)"
    and "SaveScreenshot (screenshot_path uni target_url) \<in>
           set (events (snd (capture_accessibility_test uni br target_url username email cb
             new_tester)))"
  shows "fst (capture_accessibility_test uni br target_url username email cb new_tester) =
           Return (False, lit ''An error occurred: '' @ e, None) \<and>
         (\<exists>evs d. events (snd (capture_accessibility_test uni br target_url username email cb
             new_tester)) = evs @ [SaveScreenshot (screenshot_path uni target_url), Quit d])"
proof (cases "Chrome br")
  case (Raises x)
  with assms(3) show ?thesis
    by (simp add: setup_failure new_tester_def)
next
  case (Returns d)
  let ?s1 = "new_tester\<lparr>driver := Some d, events := events new_tester @ [NewChrome]\<rparr>"
  obtain c s2 where b: "capture_body uni br target_url username email cb ?s1 = (c, s2)"
    by (cases "capture_body uni br target_url username email cb ?s1")
  have j: "SaveScreenshot (screenshot_path uni target_url) \<notin> set (events ?s1)"
    by (simp add: new_tester_def)
  from assms(3) have m: "SaveScreenshot (screenshot_path uni target_url) \<in> set (events s2)"
    by (simp add: run_unfold_events [OF Returns b])
  from body_screenshot_fault [OF assms(1), unfolded hoare_def, rule_format, OF j b] m
  obtain evs where c: "c = Raise (Exception e)"
    and evs: "events s2 = evs @ [SaveScreenshot (screenshot_path uni target_url)]"
    by blast
  then show ?thesis
    by (simp add: run_unfold_events [OF Returns b] run_unfold_result [OF Returns b assms(2)])
qed

theorem screenshot_fault_is_fatal_witness:
  "save_screenshot (cooperative\<lparr>save_screenshot := (\<lambda>p. Raises (lit ''disk full''))\<rparr>)
     (screenshot_path ascii_only (lit ''https://example.com'')) = Raises (lit ''disk full'') \<and>
   is_Returns (quit (cooperative\<lparr>save_screenshot := (\<lambda>p. Raises (lit ''disk full''))\<rparr>)) \<and>
   SaveScreenshot (screenshot_path ascii_only (lit ''https://example.com'')) \<in>
     set (events (snd (capture_accessibility_test ascii_only
       (cooperative\<lparr>save_screenshot := (\<lambda>p. Raises (lit ''disk full''))\<rparr>)
       (lit ''https://example.com'') (lit ''Ada'') (lit ''ada@example.com'') None new_tester))) \<and>
   fst (capture_accessibility_test ascii_only
       (cooperative\<lparr>save_screenshot := (\<lambda>p. Raises (lit ''disk full''))\<rparr>)
       (lit ''https://example.com'') (lit ''Ada'') (lit ''ada@example.com'') None new_tester) =
     Return (False, lit ''An error occurred: '' @ lit ''disk full'', None)"
proof -
  let ?B = "cooperative\<lparr>save_screenshot := (\<lambda>p. Raises (lit ''disk full''))\<rparr>"
  have a: "save_screenshot ?B (screenshot_path ascii_only (lit ''https://example.com'')) =
      Raises (lit ''disk full'')"
    by (simp add: cooperative_def)
  have m: "SaveScreenshot (screenshot_path ascii_only (lit ''https://example.com'')) \<in>
     set (events (snd (capture_accessibility_test ascii_only ?B
       (lit ''https://example.com'') (lit ''Ada'') (lit ''ada@example.com'') None new_tester)))"
    by (simp add: run_defs cooperative_def new_tester_def)
  have q: "is_Returns (quit ?B)"
    by (simp add: cooperative_def)
  from screenshot_fault_is_fatal [OF a q m] a q m show ?thesis
    by blast
qed

text \<open>
  The claim as stated fails: with a browser whose \<open>save_screenshot\<close> raises, the run
  returns from the outermost handler and never waits for the report button.
\<close>

theorem screenshot_fault_ends_run:
  "fst (capture_accessibility_test ascii_only
       (cooperative\<lparr>save_screenshot := (\<lambda>p. Raises (lit ''disk full''))\<rparr>)
       (lit ''https://example.com'') (lit ''Ada'') (lit ''ada@example.com'') None new_tester) =
     Return (False, lit ''An error occurred: '' @ lit ''disk full'', None) \<and>
   events (snd (capture_accessibility_test ascii_only
       (cooperative\<lparr>save_screenshot := (\<lambda>p. Raises (lit ''disk full''))\<rparr>)
       (lit ''https://example.com'') (lit ''Ada'') (lit ''ada@example.com'') None new_tester)) =
     [NewChrome, Get (base_url @ lit ''https://example.com''),
      UntilPresence 10 consent_xpath, Click consent_xpath,
      UntilPresence 30 iframe_xpath, FindElement iframe_xpath, SwitchToFrame iframe_xpath,
      SaveScreenshot (lit ''accessibility_results_examplecom.png''), Quit 1]"
  by (simp add: run_defs cooperative_def new_tester_def screenshot_path_example)

section \<open>The progress values\<close>






















end
